theory Spec2Isabelle
  imports Main
begin

section \<open>Python strings\<close>

text \<open>
  A Python \<open>str\<close> is a sequence of Unicode code points, so it is modelled as the list of
  its code points. \<open>ustr\<close> writes an ASCII literal of the source as such a list.
\<close>

type_synonym pstr = "nat list"

definition ustr :: "string \<Rightarrow> pstr" where
  "ustr s = map of_char s"

text \<open>\<open>str.isspace\<close> for one code point: the characters \<open>str.strip()\<close> removes.\<close>

definition py_isspace :: "nat \<Rightarrow> bool" where
  "py_isspace c =
     ((9 \<le> c \<and> c \<le> 13) \<or> (28 \<le> c \<and> c \<le> 32) \<or> c = 133 \<or> c = 160 \<or> c = 5760
      \<or> (8192 \<le> c \<and> c \<le> 8202) \<or> c = 8232 \<or> c = 8233 \<or> c = 8239 \<or> c = 8287
      \<or> c = 12288)"

definition py_strip :: "pstr \<Rightarrow> pstr" where
  "py_strip s = rev (dropWhile py_isspace (rev (dropWhile py_isspace s)))"

text \<open>\<open>s.split(sep)\<close> for a separator of one character: empty pieces are kept.\<close>

fun split_on :: "nat \<Rightarrow> pstr \<Rightarrow> pstr list" where
  "split_on sep [] = [[]]"
| "split_on sep (c # cs) =
     (if c = sep then [] # split_on sep cs
      else (case split_on sep cs of
              [] \<Rightarrow> [[c]]
            | w # ws \<Rightarrow> (c # w) # ws))"

text \<open>\<open>sep.join(xs)\<close>.\<close>

fun py_join :: "pstr \<Rightarrow> pstr list \<Rightarrow> pstr" where
  "py_join sep [] = []"
| "py_join sep [x] = x"
| "py_join sep (x # y # ys) = x @ sep @ py_join sep (y # ys)"

text \<open>\<open>str(x)\<close> inside an f-string, for a value that may be \<open>None\<close>.\<close>

definition py_str :: "pstr option \<Rightarrow> pstr" where
  "py_str x = (case x of None \<Rightarrow> ustr ''None'' | Some s \<Rightarrow> s)"

text \<open>Truthiness of an optional string: \<open>None\<close> and \<open>""\<close> are falsy.\<close>

definition truthy :: "pstr option \<Rightarrow> bool" where
  "truthy x = (case x of None \<Rightarrow> False | Some s \<Rightarrow> s \<noteq> [])"

section \<open>Translation records (class Word)\<close>

definition is_vietnamese :: "nat \<Rightarrow> bool" where
  "is_vietnamese c = (192 \<le> c \<and> c \<le> 7929)"

text \<open>\<open>Word._process_mean\<close>: the clauses of \<open>mean\<close> that contain a Vietnamese letter.\<close>

definition process_mean :: "pstr \<Rightarrow> pstr" where
  "process_mean mean =
     (let meanings = map py_strip (split_on 59 mean);
          vietnamese_meanings = filter (list_ex is_vietnamese) meanings
      in if vietnamese_meanings \<noteq> [] then py_join (ustr ''; '') vietnamese_meanings
         else mean)"

record Word =
  word :: pstr
  phonetic :: "pstr option"
  mean :: pstr
  is_common :: bool
  priority :: "pstr option"
  info :: "pstr option"
  anki :: "pstr option"

text \<open>\<open>Word.__init__\<close>; every argument but \<open>is_common\<close> may be \<open>None\<close>.\<close>

definition Word_init ::
  "pstr option \<Rightarrow> pstr option \<Rightarrow> pstr option \<Rightarrow> bool \<Rightarrow> pstr option \<Rightarrow> pstr option
     \<Rightarrow> pstr option \<Rightarrow> Word" where
  "Word_init w ph m ic pr nfo an =
     \<lparr> word = (case w of None \<Rightarrow> [] | Some s \<Rightarrow> if s \<noteq> [] then py_strip s else []),
       phonetic = ph,
       mean = (case m of None \<Rightarrow> [] | Some s \<Rightarrow> if s \<noteq> [] then process_mean s else []),
       is_common = ic,
       priority = pr,
       info = nfo,
       anki = an \<rparr>"

section \<open>Character records (class Kanji) and synthesized entries (class StarDict)\<close>

record Kanji =
  kanji :: "pstr option"
  hanzi :: "pstr option"
  on :: "pstr option"
  kun :: "pstr option"
  mean :: "pstr option"
  level :: "pstr option"
  priority :: "pstr option"
  info :: "pstr option"
  anki :: "pstr option"

record StarDict =
  hanzi :: pstr
  hanzi_anki :: "pstr list"
  mean :: pstr
  mean_anki :: "pstr option"

section \<open>XML elements (xml.etree.ElementTree.Element)\<close>

datatype element =
  Element (tag: pstr) (attrib: "(pstr \<times> pstr) list") (etext: "pstr option")
    (tail: "pstr option") (children: "element list")

text \<open>The field \<open>etext\<close> is the element's \<open>text\<close> attribute.
  \<open>ET.Element(tag)\<close>, and \<open>ET.SubElement(parent, tag)\<close> followed by the assignments the
  source makes to the new child before it touches the parent again.\<close>

definition new_Element :: "pstr \<Rightarrow> element" where
  "new_Element t = Element t [] None None []"

definition append_child :: "element \<Rightarrow> element \<Rightarrow> element" where
  "append_child parent c =
     Element (tag parent) (attrib parent) (etext parent) (tail parent) (children parent @ [c])"

definition set_children :: "element \<Rightarrow> element list \<Rightarrow> element" where
  "set_children e cs = Element (tag e) (attrib e) (etext e) (tail e) cs"

text \<open>\<open>e.findall('t')\<close> and \<open>e.findall('./t')\<close>: the children of \<open>e\<close> with tag \<open>t\<close>, in
  document order; \<open>e.findall('./a/b')\<close>: the \<open>b\<close> children of the \<open>a\<close> children.\<close>

definition findall_child :: "pstr \<Rightarrow> element \<Rightarrow> element list" where
  "findall_child t e = filter (\<lambda>c. tag c = t) (children e)"

definition findall_path2 :: "pstr \<Rightarrow> pstr \<Rightarrow> element \<Rightarrow> element list" where
  "findall_path2 a b e = concat (map (findall_child b) (findall_child a e))"

text \<open>\<open>StarDict.to_xml_sense_elements\<close>.\<close>

definition mean_sense_of :: "StarDict \<Rightarrow> element" where
  "mean_sense_of sd =
     (let gloss = Element (ustr ''gloss'') [(ustr ''xml:lang'', ustr ''vi'')]
                    (Some (StarDict.mean sd)) None [];
          mean_sense = append_child (new_Element (ustr ''sense'')) gloss
      in if truthy (mean_anki sd)
         then append_child mean_sense (Element (ustr ''misc'') [] (mean_anki sd) None [])
         else mean_sense)"

definition hanzi_sense_of :: "StarDict \<Rightarrow> element" where
  "hanzi_sense_of sd =
     (let gloss = Element (ustr ''gloss'') [] (Some (StarDict.hanzi sd)) None [];
          hanzi_sense = append_child (new_Element (ustr ''sense'')) gloss
      in foldl (\<lambda>s anki_entry.
                 append_child s (Element (ustr ''misc'') [] (Some anki_entry) None []))
           hanzi_sense (hanzi_anki sd))"

definition to_xml_sense_elements :: "StarDict \<Rightarrow> element list" where
  "to_xml_sense_elements sd =
     (let sense_elements = (if StarDict.mean sd \<noteq> [] then [mean_sense_of sd] else [])
      in if StarDict.hanzi sd \<noteq> [] then sense_elements @ [hanzi_sense_of sd]
         else sense_elements)"

section \<open>The translation store (sqlite3)\<close>

text \<open>
  A table is the list of its rows in the order in which a query without ORDER BY returns
  them; every column holds text or NULL. A table that is \<open>None\<close> cannot be queried:
  \<open>cursor.execute\<close> raises \<open>sqlite3.Error\<close>, which the source catches.
\<close>

record words_row =
  col_word :: "pstr option"
  col_phonetic :: "pstr option"
  col_mean :: "pstr option"
  col_is_common :: "int option"
  col_priority :: "pstr option"
  col_info :: "pstr option"
  col_anki :: "pstr option"

record kanji_row =
  k_kanji :: "pstr option"
  k_hanzi :: "pstr option"
  k_onyomi :: "pstr option"
  k_kunyomi :: "pstr option"
  k_mean :: "pstr option"
  k_level :: "pstr option"
  k_priority :: "pstr option"
  k_info :: "pstr option"
  k_anki :: "pstr option"

record conn =
  words_table :: "words_row list option"
  kanji_table :: "kanji_row list option"

text \<open>SQLite's \<open>LIKE\<close>: \<open>%\<close> matches any run of characters, \<open>_\<close> any one character, and
  every other character matches itself, ASCII letters without regard to case.\<close>

definition sql_lower :: "nat \<Rightarrow> nat" where
  "sql_lower c = (if 65 \<le> c \<and> c \<le> 90 then c + 32 else c)"

fun sql_like :: "pstr \<Rightarrow> pstr \<Rightarrow> bool" where
  "sql_like [] s = (s = [])"
| "sql_like (p # ps) [] = (p = 37 \<and> sql_like ps [])"
| "sql_like (p # ps) (c # cs) =
     (if p = 37 then sql_like ps (c # cs) \<or> sql_like (p # ps) cs
      else if p = 95 then sql_like ps cs
      else sql_lower p = sql_lower c \<and> sql_like ps cs)"

definition word_of_row :: "words_row \<Rightarrow> Word" where
  "word_of_row r =
     Word_init (col_word r) (col_phonetic r) (col_mean r)
       (case col_is_common r of None \<Rightarrow> False | Some n \<Rightarrow> n \<noteq> 0)
       (col_priority r) (col_info r) (col_anki r)"

text \<open>\<open>get_words\<close>: the exact query, and the \<open>LIKE\<close> query only when it returned no row.
  A \<open>None\<close> parameter is NULL in the first query and the text \<open>None\<close> in the second.\<close>

definition get_words :: "conn \<Rightarrow> pstr option \<Rightarrow> Word list" where
  "get_words c search_word =
     (case words_table c of
        None \<Rightarrow> []
      | Some rows \<Rightarrow>
          (let results = (case search_word of
                            None \<Rightarrow> []
                          | Some s \<Rightarrow> filter (\<lambda>r. col_word r = Some s) rows);
               results2 = (if results = []
                           then filter (\<lambda>r. case col_phonetic r of
                                               None \<Rightarrow> False
                                             | Some p \<Rightarrow>
                                                 sql_like ([37] @ py_str search_word @ [37]) p)
                                  rows
                           else results)
           in map word_of_row results2))"

definition kanji_of_row :: "kanji_row \<Rightarrow> Kanji" where
  "kanji_of_row r =
     \<lparr> kanji = k_kanji r, hanzi = k_hanzi r, on = k_onyomi r, kun = k_kunyomi r,
       mean = k_mean r, level = k_level r, priority = k_priority r, info = k_info r,
       anki = k_anki r \<rparr>"

definition get_kanji :: "conn \<Rightarrow> pstr \<Rightarrow> Kanji option" where
  "get_kanji c kanji_char =
     (case kanji_table c of
        None \<Rightarrow> None
      | Some rows \<Rightarrow>
          (case filter (\<lambda>r. k_kanji r = Some kanji_char) rows of
             [] \<Rightarrow> None
           | r # _ \<Rightarrow> Some (kanji_of_row r)))"

section \<open>Matching\<close>

text \<open>\<open>filter_word\<close>: the first word equal to the query, else the first word whose phonetic
  field, split at single spaces, has the query among its pieces.\<close>

definition filter_word :: "pstr option \<Rightarrow> Word list \<Rightarrow> Word option" where
  "filter_word input_word word_list =
     (if word_list = [] then None
      else (case find (\<lambda>w. Some (Word.word w) = input_word) word_list of
              Some w \<Rightarrow> Some w
            | None \<Rightarrow>
                find (\<lambda>w. truthy (Word.phonetic w) \<and>
                          (case input_word of
                             None \<Rightarrow> False
                           | Some s \<Rightarrow> s \<in> set (split_on 32 (py_str (Word.phonetic w)))))
                  word_list))"

text \<open>One loop of \<open>find_relevant_word\<close> over the elements of one kind.\<close>

fun find_in_elements :: "conn \<Rightarrow> element list \<Rightarrow> Word option" where
  "find_in_elements c [] = None"
| "find_in_elements c (ele # rest) =
     (case filter_word (etext ele) (get_words c (etext ele)) of
        Some w \<Rightarrow> Some w
      | None \<Rightarrow> find_in_elements c rest)"

definition find_relevant_word :: "conn \<Rightarrow> element list \<Rightarrow> element list \<Rightarrow> Word option" where
  "find_relevant_word c kanji_elements reading_elements =
     (case find_in_elements c kanji_elements of
        Some w \<Rightarrow> Some w
      | None \<Rightarrow> find_in_elements c reading_elements)"

section \<open>Character collection\<close>

datatype error = TypeError | ParseError | ValueError | IndexError | ZeroDivisionError

definition is_kanji_char :: "nat \<Rightarrow> bool" where
  "is_kanji_char c = (19968 \<le> c \<and> c \<le> 40959)"

fun kanji_loop :: "conn \<Rightarrow> pstr \<Rightarrow> Kanji list" where
  "kanji_loop c [] = []"
| "kanji_loop c (ch # rest) =
     (if is_kanji_char ch
      then (case get_kanji c [ch] of
              Some k \<Rightarrow> k # kanji_loop c rest
            | None \<Rightarrow> kanji_loop c rest)
      else kanji_loop c rest)"

text \<open>\<open>get_kanji_from_word\<close>: iterating over \<open>None\<close> raises \<open>TypeError\<close>.\<close>

definition get_kanji_from_word :: "conn \<Rightarrow> pstr option \<Rightarrow> error + Kanji list" where
  "get_kanji_from_word c w =
     (case w of None \<Rightarrow> Inl TypeError | Some s \<Rightarrow> Inr (kanji_loop c s))"

text \<open>The two nested loops at the head of \<open>process_entry\<close>; the state is
  \<open>(seen_kanji, kanjis)\<close>.\<close>

fun add_unseen ::
  "Kanji list \<Rightarrow> pstr option set \<times> Kanji list \<Rightarrow> pstr option set \<times> Kanji list" where
  "add_unseen [] st = st"
| "add_unseen (k # ks) (seen_kanji, kanjis) =
     (if Kanji.kanji k \<notin> seen_kanji
      then add_unseen ks (insert (Kanji.kanji k) seen_kanji, kanjis @ [k])
      else add_unseen ks (seen_kanji, kanjis))"

fun collect_kanji ::
  "conn \<Rightarrow> element list \<Rightarrow> pstr option set \<times> Kanji list
     \<Rightarrow> error + pstr option set \<times> Kanji list" where
  "collect_kanji c [] st = Inr st"
| "collect_kanji c (k_ele # rest) st =
     (case get_kanji_from_word c (etext k_ele) of
        Inl e \<Rightarrow> Inl e
      | Inr ks \<Rightarrow> collect_kanji c rest (add_unseen ks st))"

section \<open>Processing one entry\<close>

text \<open>The comprehension \<open>[x for x in xs if x]\<close> over optional strings.\<close>

definition truthy_strs :: "pstr option list \<Rightarrow> pstr list" where
  "truthy_strs xs = map py_str (filter truthy xs)"

definition make_stardict :: "Kanji list \<Rightarrow> Word option \<Rightarrow> StarDict" where
  "make_stardict kanjis w =
     \<lparr> hanzi = py_join (ustr '' | '') (truthy_strs (map Kanji.hanzi kanjis)),
       hanzi_anki = map (\<lambda>k. py_str (Kanji.kanji k) @ ustr '' : '' @ py_str (Kanji.anki k))
                      (filter (\<lambda>k. truthy (Kanji.anki k)) kanjis),
       mean = (case w of None \<Rightarrow> [] | Some x \<Rightarrow> Word.mean x),
       mean_anki = (case w of None \<Rightarrow> Some [] | Some x \<Rightarrow> Word.anki x) \<rparr>"

text \<open>\<open>xs.index(x)\<close> (\<open>None\<close> stands for \<open>ValueError\<close>) and \<open>xs.insert(i, x)\<close>.\<close>

fun py_index :: "'a \<Rightarrow> 'a list \<Rightarrow> nat option" where
  "py_index x [] = None"
| "py_index x (y # ys) = (if y = x then Some 0 else map_option Suc (py_index x ys))"

definition py_insert :: "nat \<Rightarrow> 'a \<Rightarrow> 'a list \<Rightarrow> 'a list" where
  "py_insert i x xs = take i xs @ x # drop i xs"

text \<open>The last block of \<open>process_entry\<close>: splicing the new sense elements into the entry.\<close>

definition insert_senses :: "element \<Rightarrow> element list \<Rightarrow> error + element" where
  "insert_senses entry xml_sense_elements =
     (if xml_sense_elements \<noteq> []
      then (case findall_child (ustr ''sense'') entry of
              [] \<Rightarrow> Inr (foldl append_child entry xml_sense_elements)
            | first_sense # _ \<Rightarrow>
                (case py_index first_sense (children entry) of
                   None \<Rightarrow> Inl ValueError
                 | Some first_sense_index \<Rightarrow>
                     Inr (set_children entry
                            (fold (py_insert first_sense_index) (rev xml_sense_elements)
                               (children entry)))))
      else Inr entry)"

text \<open>\<open>process_entry\<close> between \<open>ET.fromstring\<close> and \<open>ET.tostring\<close>.\<close>

definition process_element :: "conn \<Rightarrow> element \<Rightarrow> error + element" where
  "process_element c entry =
     (let kanji_elements = findall_path2 (ustr ''k_ele'') (ustr ''keb'') entry;
          reading_elements = findall_path2 (ustr ''r_ele'') (ustr ''reb'') entry
      in case collect_kanji c kanji_elements ({}, []) of
           Inl e \<Rightarrow> Inl e
         | Inr (seen_kanji, kanjis) \<Rightarrow>
             insert_senses entry
               (to_xml_sense_elements
                  (make_stardict kanjis
                     (find_relevant_word c kanji_elements reading_elements))))"

text \<open>
  \<open>ET.fromstring\<close> and \<open>ET.tostring\<close> belong to the Python library, not to this repository:
  they are parameters of the model. \<open>fromstring\<close> returns \<open>None\<close> where the library raises
  \<open>ParseError\<close>.
\<close>

record 's etree =
  fromstring :: "'s \<Rightarrow> element option"
  tostring :: "element \<Rightarrow> 's"

definition process_entry :: "'s etree \<Rightarrow> conn \<Rightarrow> 's \<Rightarrow> error + 's" where
  "process_entry et c entry_str =
     (case fromstring et entry_str of
        None \<Rightarrow> Inl ParseError
      | Some entry \<Rightarrow>
          (case process_element c entry of
             Inl e \<Rightarrow> Inl e
           | Inr entry2 \<Rightarrow> Inr (tostring et entry2)))"

section \<open>The orchestrator\<close>

text \<open>\<open>root.findall('.//entry')\<close>: every descendant of the root with that tag, in document
  order.\<close>

fun descendants :: "element \<Rightarrow> element list" where
  "descendants (Element t a x y cs) = concat (map (\<lambda>c. c # descendants c) cs)"

definition findall_desc :: "pstr \<Rightarrow> element \<Rightarrow> element list" where
  "findall_desc t e = filter (\<lambda>c. tag c = t) (descendants e)"

text \<open>\<open>list(pool.imap(f, xs))\<close>: the results in the order of \<open>xs\<close>, whatever the order in
  which the workers finish; the first task (in that order) that raised makes the
  iteration raise its exception in the parent.\<close>

fun pool_imap :: "('a \<Rightarrow> error + 'b) \<Rightarrow> 'a list \<Rightarrow> error + 'b list" where
  "pool_imap f [] = Inr []"
| "pool_imap f (x # xs) =
     (case f x of
        Inl e \<Rightarrow> Inl e
      | Inr y \<Rightarrow> (case pool_imap f xs of Inl e \<Rightarrow> Inl e | Inr ys \<Rightarrow> Inr (y # ys)))"

text \<open>The loop \<open>root[i] = ...\<close> over \<open>enumerate(modified_entry_strs)\<close>. The state is the list
  of the root's children and the indices for which a parse error was printed; an
  assignment past the end of either list raises \<open>IndexError\<close>.\<close>

fun update_loop ::
  "'s etree \<Rightarrow> element list \<Rightarrow> nat \<Rightarrow> 's list \<Rightarrow> element list \<times> nat list
     \<Rightarrow> error \<times> nat list + element list \<times> nat list" where
  "update_loop et entries i [] st = Inr st"
| "update_loop et entries i (modified_str # rest) (cs, log) =
     (case fromstring et modified_str of
        Some e \<Rightarrow>
          (if i < length cs then update_loop et entries (Suc i) rest (cs[i := e], log)
           else Inl (IndexError, log))
      | None \<Rightarrow>
          (if i < length entries \<and> i < length cs
           then update_loop et entries (Suc i) rest (cs[i := entries ! i], log @ [i])
           else Inl (IndexError, log @ [i])))"

text \<open>What a run leaves behind: the tree written to the output file (if it got that far),
  the indices of the entries reported as unparsable, and the exception that ended the
  run (if any).\<close>

record run_result =
  written :: "element option"
  warnings :: "nat list"
  raised :: "error option"

definition update_jmdict_with_vietnamese_parallel ::
  "'s etree \<Rightarrow> conn \<Rightarrow> element \<Rightarrow> run_result" where
  "update_jmdict_with_vietnamese_parallel et c root =
     (let entries = findall_desc (ustr ''entry'') root;
          total_entries = length entries;
          entry_strs = map (tostring et) entries
      in case pool_imap (process_entry et c) entry_strs of
           Inl e \<Rightarrow> \<lparr> written = None, warnings = [], raised = Some e \<rparr>
         | Inr modified_entry_strs \<Rightarrow>
             (case update_loop et entries 0 modified_entry_strs (children root, []) of
                Inl (e, log) \<Rightarrow> \<lparr> written = None, warnings = log, raised = Some e \<rparr>
              | Inr (cs, log) \<Rightarrow>
                  \<lparr> written = Some (set_children root cs), warnings = log,
                    raised = (if total_entries = 0 then Some ZeroDivisionError
                              else None) \<rparr>))"

section \<open>Merging the chunk files\<close>



section \<open>Example data\<close>

text \<open>Small concrete elements, a store and a codec, used to run the definitions.\<close>

definition leaf :: "string \<Rightarrow> pstr option \<Rightarrow> element" where
  "leaf t x = Element (ustr t) [] x None []"

definition node :: "string \<Rightarrow> element list \<Rightarrow> element" where
  "node t cs = Element (ustr t) [] None None cs"

definition krow :: "nat \<Rightarrow> pstr option \<Rightarrow> pstr option \<Rightarrow> kanji_row" where
  "krow ch h a =
     \<lparr> k_kanji = Some [ch], k_hanzi = h, k_onyomi = None, k_kunyomi = None, k_mean = None,
       k_level = None, k_priority = None, k_info = None, k_anki = a \<rparr>"

definition wrow :: "pstr \<Rightarrow> pstr option \<Rightarrow> pstr \<Rightarrow> pstr option \<Rightarrow> words_row" where
  "wrow w ph m a =
     \<lparr> col_word = Some w, col_phonetic = ph, col_mean = Some m, col_is_common = Some 1,
       col_priority = None, col_info = None, col_anki = a \<rparr>"

text \<open>A codec whose serialized form is the element itself, and whose parser rejects any
  element holding a character that XML 1.0 forbids in character data.\<close>

definition xml_char_ok :: "nat \<Rightarrow> bool" where
  "xml_char_ok ch = (ch = 9 \<or> ch = 10 \<or> ch = 13 \<or> 32 \<le> ch)"

definition text_ok :: "element \<Rightarrow> bool" where
  "text_ok e = (case etext e of None \<Rightarrow> True | Some t \<Rightarrow> list_all xml_char_ok t)"

definition strict_et :: "element etree" where
  "strict_et =
     \<lparr> fromstring = (\<lambda>s. if list_all text_ok (s # descendants s) then Some s else None),
       tostring = (\<lambda>e. e) \<rparr>"

text \<open>The headword \<open>nihongo\<close> (U+65E5 U+672C U+8A9E) and the meaning text of the
  specification's example, \<open>tieng Nhat\<close> written with U+1EBF and U+1EAD.\<close>

definition nihongo :: pstr where
  "nihongo = [26085, 26412, 35486]"

definition tieng_nhat :: pstr where
  "tieng_nhat = ustr ''ti'' @ [7871] @ ustr ''ng Nh'' @ [7853] @ ustr ''t''"

text \<open>An entry whose only headword is the character U+65E5, and two stores without
  translation records: one knows the character with an alternate rendering, the other
  knows it with an annotation only.\<close>

definition hi_entry :: element where
  "hi_entry =
     node ''entry''
       [node ''k_ele'' [leaf ''keb'' (Some [26085])],
        node ''r_ele'' [leaf ''reb'' (Some [12402])],
        node ''sense'' [leaf ''gloss'' (Some (ustr ''day''))]]"

definition hanzi_store :: conn where
  "hanzi_store =
     \<lparr> words_table = Some [],
       kanji_table = Some [krow 26085 (Some (ustr ''NHAT'')) (Some (ustr ''day-note''))] \<rparr>"

definition plain_store :: conn where
  "plain_store =
     \<lparr> words_table = Some [],
       kanji_table = Some [krow 26085 None (Some (ustr ''day-note''))] \<rparr>"

text \<open>A store that knows the characters U+65E5 and U+672C, and two headword elements in
  which both occur more than once.\<close>

definition two_kanji_store :: conn where
  "two_kanji_store =
     \<lparr> words_table = Some [],
       kanji_table = Some [krow 26412 (Some (ustr ''BAN'')) None,
                           krow 26085 (Some (ustr ''NHAT'')) (Some (ustr ''day-note''))] \<rparr>"

definition repeated_kebs :: "element list" where
  "repeated_kebs =
     [leaf ''keb'' (Some [26085, 26085, 26412]), leaf ''keb'' (Some [26412, 12354, 26085])]"









text \<open>A corpus of two entries and a store that has a translation record for each: the
  meaning text of the first holds the control character U+000B, which the strict codec
  does not parse back; the second is the specification's example.\<close>

definition nihongo_entry :: element where
  "nihongo_entry =
     node ''entry''
       [node ''k_ele'' [leaf ''keb'' (Some nihongo)],
        node ''sense'' [leaf ''gloss'' (Some (ustr ''Japanese''))]]"

definition mixed_store :: conn where
  "mixed_store =
     \<lparr> words_table = Some [wrow [26085] None [78, 11, 7853] None,
                           wrow nihongo None (tieng_nhat @ ustr ''; Japanese language'') None],
       kanji_table = Some [] \<rparr>"

definition mixed_corpus :: element where
  "mixed_corpus = node ''JMdict'' [hi_entry, nihongo_entry]"

text \<open>A corpus whose second entry has a headword element without text.\<close>

definition empty_keb_corpus :: element where
  "empty_keb_corpus =
     node ''JMdict'' [nihongo_entry, node ''entry'' [node ''k_ele'' [leaf ''keb'' None]]]"

text \<open>A corpus whose only entry has a headword element without text, and a document
  whose root holds a \<open>header\<close> element before its entry.\<close>

definition lone_empty_keb_corpus :: element where
  "lone_empty_keb_corpus =
     node ''JMdict'' [node ''entry'' [node ''k_ele'' [leaf ''keb'' None]]]"

definition header_corpus :: element where
  "header_corpus = node ''JMdict'' [leaf ''header'' None, nihongo_entry]"

text \<open>What \<open>process_entry\<close> makes of the two entries of \<open>mixed_corpus\<close>.\<close>

definition hi_processed :: element where
  "hi_processed =
     node ''entry''
       [node ''k_ele'' [leaf ''keb'' (Some [26085])],
        node ''r_ele'' [leaf ''reb'' (Some [12402])],
        node ''sense''
          [Element (ustr ''gloss'') [(ustr ''xml:lang'', ustr ''vi'')] (Some [78, 11, 7853])
             None []],
        node ''sense'' [leaf ''gloss'' (Some (ustr ''day''))]]"

definition nihongo_processed :: element where
  "nihongo_processed =
     node ''entry''
       [node ''k_ele'' [leaf ''keb'' (Some nihongo)],
        node ''sense''
          [Element (ustr ''gloss'') [(ustr ''xml:lang'', ustr ''vi'')] (Some tieng_nhat)
             None []],
        node ''sense'' [leaf ''gloss'' (Some (ustr ''Japanese''))]]"

section \<open>The specification's wording\<close>

text \<open>The meaning text as the specification describes it: the trimmed clauses that hold a
  character of the Vietnamese band, joined, or the whole text when there is none.\<close>

definition vietnamese_clauses :: "pstr \<Rightarrow> pstr list" where
  "vietnamese_clauses m = filter (list_ex is_vietnamese) (map py_strip (split_on 59 m))"

definition spec_meaning_text :: "pstr \<Rightarrow> pstr" where
  "spec_meaning_text m =
     (if vietnamese_clauses m = [] then m else py_join (ustr ''; '') (vietnamese_clauses m))"

text \<open>The text of the first \<open>gloss\<close> child of a sense block.\<close>

definition gloss_text :: "element \<Rightarrow> pstr option" where
  "gloss_text e = (case findall_child (ustr ''gloss'') e of [] \<Rightarrow> None | g # _ \<Rightarrow> etext g)"

text \<open>The first occurrence of every element of a list, in order.\<close>

fun first_seen :: "'a list \<Rightarrow> 'a list" where
  "first_seen [] = []"
| "first_seen (x # xs) = x # removeAll x (first_seen xs)"

text \<open>The character collection as the specification describes it: scan the headword
  forms character by character, keep the ideographic ones, each once in first-seen
  order, and look each one up in the character table.\<close>

definition spec_collect :: "conn \<Rightarrow> pstr list \<Rightarrow> Kanji list" where
  "spec_collect c forms =
     List.map_filter (\<lambda>ch. get_kanji c [ch]) (first_seen (filter is_kanji_char (concat forms)))"










text \<open>What the orchestrator's last loop is meant to leave at each index: the parsed
  result, or the original entry where the result does not parse.\<close>

definition collected :: "'s etree \<Rightarrow> element list \<Rightarrow> 's list \<Rightarrow> element list" where
  "collected et entries modified =
     map (\<lambda>(m, e). case fromstring et m of Some x \<Rightarrow> x | None \<Rightarrow> e) (zip modified entries)"

text \<open>The indices, counted from \<open>i\<close>, of the results that do not parse.\<close>

fun failed_from :: "'s etree \<Rightarrow> nat \<Rightarrow> 's list \<Rightarrow> nat list" where
  "failed_from et i [] = []"
| "failed_from et i (m # ms) =
     (if fromstring et m = None then i # failed_from et (Suc i) ms
      else failed_from et (Suc i) ms)"

section \<open>Properties\<close>

subsection \<open>Helper lemmas\<close>

lemma collect_kanji_None_text:
  "k \<in> set ks \<Longrightarrow> etext k = None \<Longrightarrow> collect_kanji c ks st = Inl TypeError"
proof (induction ks arbitrary: st)
  case Nil
  then show ?case by simp
next
  case (Cons a ks)
  show ?case
  proof (cases "etext a")
    case None
    then show ?thesis by (simp add: get_kanji_from_word_def)
  next
    case (Some t)
    with Cons.prems have "k \<in> set ks" by auto
    with Cons.IH Cons.prems(2) Some show ?thesis
      by (simp add: get_kanji_from_word_def)
  qed
qed

lemma py_join_Nil_iff: "list_all (\<lambda>x. x \<noteq> []) xs \<Longrightarrow> py_join sep xs = [] \<longleftrightarrow> xs = []"
  by (induction sep xs rule: py_join.induct) auto

lemma truthy_strs_nonempty: "list_all (\<lambda>x. x \<noteq> []) (truthy_strs xs)"
  by (induction xs) (auto simp: truthy_strs_def truthy_def py_str_def split: option.splits)

lemma truthy_strs_all_falsy: "\<forall>x \<in> set xs. \<not> truthy x \<Longrightarrow> truthy_strs xs = []"
  by (induction xs) (auto simp: truthy_strs_def)

lemma fold_py_insert:
  "i \<le> length cs \<Longrightarrow> fold (py_insert i) (rev bs) cs = take i cs @ bs @ drop i cs"
  by (induction bs) (simp_all add: py_insert_def min_def)

lemma py_index_first: "x \<notin> set pre \<Longrightarrow> py_index x (pre @ x # post) = Some (length pre)"
  by (induction pre) auto

lemma children_set_children [simp]: "children (set_children e cs) = cs"
  by (simp add: set_children_def)

lemma set_children_twice [simp]: "set_children (set_children e cs) ds = set_children e ds"
  by (simp add: set_children_def)

lemma set_children_same [simp]: "set_children e (children e) = e"
  by (cases e) (simp add: set_children_def)

lemma append_child_set_children: "append_child e b = set_children e (children e @ [b])"
  by (simp add: append_child_def set_children_def)

lemma foldl_append_child: "foldl append_child e bs = set_children e (children e @ bs)"
  by (induction bs arbitrary: e) (simp_all add: append_child_set_children)

lemma insert_senses_before_first:
  assumes "blocks \<noteq> []" "children entry = pre @ s # post" "tag s = ustr ''sense''"
    "list_all (\<lambda>c. tag c \<noteq> ustr ''sense'') pre"
  shows "insert_senses entry blocks = Inr (set_children entry (pre @ blocks @ s # post))"
proof -
  from assms(4) have np: "filter (\<lambda>c. tag c = ustr ''sense'') pre = []"
    by (induction pre) auto
  from assms(3,4) have notin: "s \<notin> set pre"
    by (auto simp: list_all_iff)
  have fa: "findall_child (ustr ''sense'') entry = s # filter (\<lambda>c. tag c = ustr ''sense'') post"
    using np assms(2,3) by (simp add: findall_child_def)
  have ix: "py_index s (children entry) = Some (length pre)"
    using notin assms(2) by (simp add: py_index_first)
  have "fold (py_insert (length pre)) (rev blocks) (children entry) = pre @ blocks @ s # post"
    using assms(2) by (simp add: fold_py_insert)
  with fa ix assms(1) show ?thesis by (simp add: insert_senses_def)
qed

lemma insert_senses_append:
  assumes "blocks \<noteq> []" "list_all (\<lambda>c. tag c \<noteq> ustr ''sense'') (children entry)"
  shows "insert_senses entry blocks = Inr (set_children entry (children entry @ blocks))"
proof -
  from assms(2) have "filter (\<lambda>c. tag c = ustr ''sense'') (children entry) = []"
    by (induction "children entry") (auto simp: list_all_iff)
  with assms(1) show ?thesis
    by (simp add: insert_senses_def findall_child_def foldl_append_child)
qed

lemma insert_senses_total:
  assumes "blocks \<noteq> []"
  shows "insert_senses entry blocks
           = Inr (set_children entry
                    (takeWhile (\<lambda>c. tag c \<noteq> ustr ''sense'') (children entry) @ blocks
                     @ dropWhile (\<lambda>c. tag c \<noteq> ustr ''sense'') (children entry)))"
proof (cases "dropWhile (\<lambda>c. tag c \<noteq> ustr ''sense'') (children entry)")
  case Nil
  then have all: "list_all (\<lambda>c. tag c \<noteq> ustr ''sense'') (children entry)"
    by (simp add: list_all_iff)
  from Nil have tw: "takeWhile (\<lambda>c. tag c \<noteq> ustr ''sense'') (children entry) = children entry"
    using takeWhile_dropWhile_id [of "\<lambda>c. tag c \<noteq> ustr ''sense''" "children entry"]
    by simp
  show ?thesis unfolding tw Nil using insert_senses_append [OF assms all] by simp
next
  case (Cons s post)
  let ?pre = "takeWhile (\<lambda>c. tag c \<noteq> ustr ''sense'') (children entry)"
  have ch: "children entry = ?pre @ s # post"
    using Cons takeWhile_dropWhile_id [of "\<lambda>c. tag c \<noteq> ustr ''sense''" "children entry"]
    by simp
  have s: "tag s = ustr ''sense''"
    using Cons hd_dropWhile [of "\<lambda>c. tag c \<noteq> ustr ''sense''" "children entry"] by auto
  have pre: "list_all (\<lambda>c. tag c \<noteq> ustr ''sense'') ?pre"
    by (auto simp: list_all_iff dest: set_takeWhileD)
  from insert_senses_before_first [OF assms ch s pre] Cons show ?thesis by simp
qed

lemma to_xml_sense_elements_order:
  "to_xml_sense_elements sd =
     (if StarDict.mean sd \<noteq> [] then [mean_sense_of sd] else [])
     @ (if StarDict.hanzi sd \<noteq> [] then [hanzi_sense_of sd] else [])"
  by (simp add: to_xml_sense_elements_def)


lemma process_mean_spec: "process_mean m = spec_meaning_text m"
  by (simp add: process_mean_def spec_meaning_text_def vietnamese_clauses_def Let_def)

lemma vietnamese_clauses_nonempty: "list_all (\<lambda>x. x \<noteq> []) (vietnamese_clauses m)"
  by (auto simp: vietnamese_clauses_def list_all_iff)

lemma spec_meaning_text_Nil_iff: "spec_meaning_text m = [] \<longleftrightarrow> m = []"
proof (cases "vietnamese_clauses m = []")
  case True
  then show ?thesis by (simp add: spec_meaning_text_def)
next
  case False
  then have "py_join (ustr ''; '') (vietnamese_clauses m) \<noteq> []"
    using py_join_Nil_iff [OF vietnamese_clauses_nonempty, of "ustr ''; ''" m] by simp
  moreover from False have "m \<noteq> []"
    by (auto simp: vietnamese_clauses_def py_strip_def)
  ultimately show ?thesis using False by (simp add: spec_meaning_text_def)
qed

lemma Word_mean_of_row:
  "Word.mean (word_of_row r) = spec_meaning_text (case col_mean r of None \<Rightarrow> [] | Some m \<Rightarrow> m)"
  using spec_meaning_text_Nil_iff [of "[]"]
  by (simp add: word_of_row_def Word_init_def process_mean_spec split: option.splits)

lemma gloss_text_mean_sense: "gloss_text (mean_sense_of sd) = Some (StarDict.mean sd)"
  by (simp add: gloss_text_def mean_sense_of_def findall_child_def append_child_def
      new_Element_def Let_def)

text \<open>The definitions that evaluating \<open>process_element\<close> on concrete data unfolds.\<close>

lemmas eval_defs = process_element_def findall_path2_def findall_child_def node_def leaf_def
  ustr_def get_kanji_from_word_def is_kanji_char_def get_kanji_def krow_def kanji_of_row_def
  find_relevant_word_def get_words_def filter_word_def make_stardict_def truthy_strs_def
  truthy_def py_str_def to_xml_sense_elements_def insert_senses_def hanzi_sense_of_def
  mean_sense_of_def append_child_def new_Element_def set_children_def py_insert_def
  word_of_row_def Word_init_def wrow_def

lemma get_kanji_key: "get_kanji c s = Some k \<Longrightarrow> Kanji.kanji k = Some s"
proof -
  assume a: "get_kanji c s = Some k"
  then obtain rows r rest where r: "kanji_table c = Some rows"
      "filter (\<lambda>r. k_kanji r = Some s) rows = r # rest" "k = kanji_of_row r"
    by (auto simp: get_kanji_def split: option.splits list.splits)
  from r(2) have "r \<in> set (filter (\<lambda>r. k_kanji r = Some s) rows)" by simp
  then have "k_kanji r = Some s" by simp
  with r(3) show ?thesis by (simp add: kanji_of_row_def)
qed

lemma kanji_loop_map_filter:
  "kanji_loop c s = List.map_filter (\<lambda>ch. get_kanji c [ch]) (filter is_kanji_char s)"
  by (induction s) (auto split: option.splits)

lemma map_filter_append: "List.map_filter g (xs @ ys) = List.map_filter g xs @ List.map_filter g ys"
  by (simp add: List.map_filter_def)

lemma concat_kanji_loop:
  "concat (map (kanji_loop c) forms)
     = List.map_filter (\<lambda>ch. get_kanji c [ch]) (filter is_kanji_char (concat forms))"
  by (induction forms) (simp_all add: kanji_loop_map_filter map_filter_append)

lemma add_unseen_fst: "fst (add_unseen ks (S, acc)) = S \<union> Kanji.kanji ` set ks"
  by (induction ks arbitrary: S acc) auto

lemma add_unseen_snd: "snd (add_unseen ks (S, acc)) = acc @ snd (add_unseen ks (S, []))"
proof (induction ks arbitrary: S acc)
  case Nil
  then show ?case by simp
next
  case (Cons k ks)
  show ?case
  proof (cases "Kanji.kanji k \<in> S")
    case True
    with Cons.IH [of S acc] show ?thesis by simp
  next
    case False
    with Cons.IH [of "insert (Kanji.kanji k) S" "acc @ [k]"]
      Cons.IH [of "insert (Kanji.kanji k) S" "[k]"]
    show ?thesis by simp
  qed
qed

lemma add_unseen_append: "add_unseen (xs @ ys) st = add_unseen ys (add_unseen xs st)"
  by (induction xs st rule: add_unseen.induct) auto

lemma map_filter_drop_miss:
  "g x = None \<Longrightarrow> List.map_filter g (filter (\<lambda>y. y \<noteq> x) ys) = List.map_filter g ys"
  by (induction ys) (auto split: option.splits)

lemma filter_notin_removeAll:
  "filter (\<lambda>y. y \<notin> S) (removeAll x ys) = filter (\<lambda>y. y \<noteq> x) (filter (\<lambda>y. y \<notin> S) ys)"
  by (induction ys) auto

lemma filter_notin_insert:
  "filter (\<lambda>y. y \<notin> insert x S) ys = filter (\<lambda>y. y \<noteq> x) (filter (\<lambda>y. y \<notin> S) ys)"
  by (induction ys) auto

lemma filter_neq_member:
  "x \<in> S \<Longrightarrow> filter (\<lambda>y. y \<noteq> x) (filter (\<lambda>y. y \<notin> S) ys) = filter (\<lambda>y. y \<notin> S) ys"
  by (induction ys) auto

lemma add_unseen_first_seen:
  assumes key: "\<And>x k. g x = Some k \<Longrightarrow> Kanji.kanji k = Some [x]"
  shows "snd (add_unseen (List.map_filter g xs) ((\<lambda>x. Some [x]) ` S, []))
           = List.map_filter g (filter (\<lambda>x. x \<notin> S) (first_seen xs))"
proof (induction xs arbitrary: S)
  case Nil
  then show ?case by simp
next
  case (Cons x xs)
  let ?rest = "filter (\<lambda>y. y \<noteq> x) (filter (\<lambda>y. y \<notin> S) (first_seen xs))"
  have rhs: "filter (\<lambda>y. y \<notin> S) (first_seen (x # xs)) = (if x \<in> S then ?rest else x # ?rest)"
    by (simp only: first_seen.simps filter.simps filter_notin_removeAll if_not_P if_P split: if_splits)
      auto
  show ?case
  proof (cases "g x")
    case None
    have "snd (add_unseen (List.map_filter g (x # xs)) ((\<lambda>x. Some [x]) ` S, []))
            = List.map_filter g (filter (\<lambda>y. y \<notin> S) (first_seen xs))"
      using None Cons.IH [of S] by simp
    also have "\<dots> = List.map_filter g ?rest"
      using None by (simp only: map_filter_drop_miss)
    also have "\<dots> = List.map_filter g (filter (\<lambda>y. y \<notin> S) (first_seen (x # xs)))"
      by (cases "x \<in> S")
        (simp_all only: rhs if_True if_False List.map_filter_simps None option.case)
    finally show ?thesis .
  next
    case (Some k)
    then have kk: "Kanji.kanji k = Some [x]" by (rule key)
    show ?thesis
    proof (cases "x \<in> S")
      case True
      then have "Kanji.kanji k \<in> (\<lambda>x. Some [x]) ` S" using kk by simp
      then have "snd (add_unseen (List.map_filter g (x # xs)) ((\<lambda>x. Some [x]) ` S, []))
            = List.map_filter g (filter (\<lambda>y. y \<notin> S) (first_seen xs))"
        using Some Cons.IH [of S] by simp
      also have "\<dots> = List.map_filter g ?rest"
        using True by (simp only: filter_neq_member)
      also have "\<dots> = List.map_filter g (filter (\<lambda>y. y \<notin> S) (first_seen (x # xs)))"
        using True by (simp only: rhs if_True)
      finally show ?thesis .
    next
      case False
      then have nin: "Kanji.kanji k \<notin> (\<lambda>x. Some [x]) ` S" using kk by auto
      have "snd (add_unseen (List.map_filter g (x # xs)) ((\<lambda>x. Some [x]) ` S, []))
            = snd (add_unseen (List.map_filter g xs) ((\<lambda>x. Some [x]) ` insert x S, [k]))"
        using Some nin kk by simp
      also have "\<dots> = [k] @ snd (add_unseen (List.map_filter g xs) ((\<lambda>x. Some [x]) ` insert x S, []))"
        by (rule add_unseen_snd)
      also have "\<dots> = k # List.map_filter g (filter (\<lambda>y. y \<notin> insert x S) (first_seen xs))"
        using Cons.IH [of "insert x S"] by simp
      also have "\<dots> = k # List.map_filter g ?rest"
        by (simp only: filter_notin_insert)
      also have "\<dots> = List.map_filter g (filter (\<lambda>y. y \<notin> S) (first_seen (x # xs)))"
        using Some False by (simp only: rhs if_False List.map_filter_simps option.case)
      finally show ?thesis .
    qed
  qed
qed

lemma collect_kanji_texts:
  "map etext kebs = map Some forms \<Longrightarrow>
   collect_kanji c kebs st = Inr (add_unseen (concat (map (kanji_loop c) forms)) st)"
proof (induction kebs arbitrary: forms st)
  case Nil
  then show ?case by simp
next
  case (Cons k kebs)
  then obtain t rest where f: "forms = t # rest" "etext k = Some t" "map etext kebs = map Some rest"
    by (cases forms) auto
  with Cons.IH [of rest] show ?case
    by (simp add: get_kanji_from_word_def add_unseen_append)
qed

lemma distinct_first_seen: "distinct (first_seen xs)"
  by (induction xs) (auto simp: distinct_removeAll)

lemma set_first_seen: "set (first_seen xs) = set xs"
  by (induction xs) auto

lemma keys_map_filter:
  assumes key: "\<And>x k. g x = Some k \<Longrightarrow> Kanji.kanji k = Some [x]"
  shows "Kanji.kanji ` set (List.map_filter g ys) \<subseteq> (\<lambda>x. Some [x]) ` set ys"
proof (induction ys)
  case Nil
  then show ?case by simp
next
  case (Cons y ys)
  then show ?case
    by (cases "g y") (auto dest: key)
qed

lemma distinct_keys_map_filter:
  assumes key: "\<And>x k. g x = Some k \<Longrightarrow> Kanji.kanji k = Some [x]"
  shows "distinct ys \<Longrightarrow> distinct (map Kanji.kanji (List.map_filter g ys))"
proof (induction ys)
  case Nil
  then show ?case by simp
next
  case (Cons y ys)
  show ?case
  proof (cases "g y")
    case None
    with Cons show ?thesis by simp
  next
    case (Some k)
    then have kk: "Kanji.kanji k = Some [y]" by (rule key)
    have "Kanji.kanji k \<notin> Kanji.kanji ` set (List.map_filter g ys)"
    proof
      assume "Kanji.kanji k \<in> Kanji.kanji ` set (List.map_filter g ys)"
      with keys_map_filter [of g ys, OF key] have "Some [y] \<in> (\<lambda>x. Some [x]) ` set ys"
        using kk by auto
      then have "y \<in> set ys" by auto
      with Cons.prems show False by simp
    qed
    with Cons Some show ?thesis by simp
  qed
qed

lemma keys_of_map_filter:
  assumes key: "\<And>x k. g x = Some k \<Longrightarrow> Kanji.kanji k = Some [x]"
  shows "map Kanji.kanji (List.map_filter g ys)
           = map (\<lambda>x. Some [x]) (filter (\<lambda>x. g x \<noteq> None) ys)"
proof (induction ys)
  case Nil
  then show ?case by simp
next
  case (Cons y ys)
  then show ?case by (cases "g y") (auto dest: key)
qed







































text \<open>The orchestrator's loops.\<close>

lemma pool_imap_list_all2:
  "pool_imap f xs = Inr ys \<Longrightarrow> list_all2 (\<lambda>x y. f x = Inr y) xs ys"
  by (induction xs arbitrary: ys) (auto split: sum.splits)

lemma pool_imap_length: "pool_imap f xs = Inr ys \<Longrightarrow> length ys = length xs"
  by (induction xs arbitrary: ys) (auto split: sum.splits)

lemma update_loop_spec:
  "i + length ms \<le> length cs \<Longrightarrow> i + length ms \<le> length entries \<Longrightarrow>
   update_loop et entries i ms (cs, log)
     = Inr (take i cs @ collected et (drop i entries) ms @ drop (i + length ms) cs,
            log @ failed_from et i ms)"
proof (induction ms arbitrary: i cs log)
  case Nil
  then show ?case by (simp add: collected_def)
next
  case (Cons m ms)
  from Cons.prems have i: "i < length cs" "i < length entries" by simp_all
  have d: "drop i entries = entries ! i # drop (Suc i) entries"
    using i(2) by (simp add: Cons_nth_drop_Suc)
  have t: "take (Suc i) (cs[i := x]) = take i cs @ [x]" for x
    using i(1) by (simp add: take_Suc_conv_app_nth)
  show ?case
  proof (cases "fromstring et m")
    case None
    have "update_loop et entries i (m # ms) (cs, log)
            = update_loop et entries (Suc i) ms (cs[i := entries ! i], log @ [i])"
      using None i by simp
    also have "\<dots> = Inr (take (Suc i) (cs[i := entries ! i])
                          @ collected et (drop (Suc i) entries) ms
                          @ drop (Suc i + length ms) (cs[i := entries ! i]),
                        (log @ [i]) @ failed_from et (Suc i) ms)"
      using Cons.prems by (intro Cons.IH) simp_all
    finally show ?thesis
      using None d t by (simp add: collected_def)
  next
    case (Some x)
    have "update_loop et entries i (m # ms) (cs, log)
            = update_loop et entries (Suc i) ms (cs[i := x], log)"
      using Some i by simp
    also have "\<dots> = Inr (take (Suc i) (cs[i := x])
                          @ collected et (drop (Suc i) entries) ms
                          @ drop (Suc i + length ms) (cs[i := x]),
                        log @ failed_from et (Suc i) ms)"
      using Cons.prems by (intro Cons.IH) simp_all
    finally show ?thesis
      using Some d t by (simp add: collected_def)
  qed
qed

lemma set_failed_from:
  "set (failed_from et i ms) = {i + j | j. j < length ms \<and> fromstring et (ms ! j) = None}"
proof (induction ms arbitrary: i)
  case Nil
  then show ?case by simp
next
  case (Cons m ms)
  have *: "{i + j | j. j < Suc (length ms) \<and> fromstring et ((m # ms) ! j) = None}
        = (if fromstring et m = None then {i} else {})
          \<union> {Suc i + j | j. j < length ms \<and> fromstring et (ms ! j) = None}"
    (is "?L = ?R")
  proof
    show "?L \<subseteq> ?R"
    proof
      fix k assume "k \<in> ?L"
      then obtain j where j: "k = i + j" "j < Suc (length ms)" "fromstring et ((m # ms) ! j) = None"
        by blast
      show "k \<in> ?R"
      proof (cases j)
        case 0
        with j show ?thesis by simp
      next
        case (Suc j')
        with j have "k = Suc i + j'" "j' < length ms" "fromstring et (ms ! j') = None" by simp_all
        then show ?thesis by blast
      qed
    qed
    show "?R \<subseteq> ?L"
    proof
      fix k assume "k \<in> ?R"
      then consider "fromstring et m = None" "k = i"
        | j where "k = Suc i + j" "j < length ms" "fromstring et (ms ! j) = None"
        by (auto split: if_splits)
      then show "k \<in> ?L"
      proof cases
        case 1
        then have "k = i + 0 \<and> 0 < Suc (length ms) \<and> fromstring et ((m # ms) ! 0) = None" by simp
        then show ?thesis by blast
      next
        case 2
        then have "k = i + Suc j \<and> Suc j < Suc (length ms) \<and> fromstring et ((m # ms) ! Suc j) = None"
          by simp
        then show ?thesis by blast
      qed
    qed
  qed
  show ?case using Cons.IH [of "Suc i"] by (simp only: failed_from.simps * length_Cons split: if_splits) auto
qed

lemma run_spec:
  assumes fmt: "findall_desc (ustr ''entry'') root = children root"
    and ok: "pool_imap (process_entry et c) (map (tostring et) (children root)) = Inr ms"
  shows "update_jmdict_with_vietnamese_parallel et c root
           = \<lparr> written = Some (set_children root (collected et (children root) ms)),
               warnings = failed_from et 0 ms,
               raised = (if children root = [] then Some ZeroDivisionError else None) \<rparr>"
proof -
  from ok have len: "length ms = length (children root)"
    using pool_imap_length by fastforce
  have "update_loop et (children root) 0 ms (children root, [])
          = Inr (collected et (children root) ms, failed_from et 0 ms)"
    using update_loop_spec [of 0 ms "children root" "children root" et "[]"] len by simp
  with fmt ok show ?thesis
    by (simp add: update_jmdict_with_vietnamese_parallel_def Let_def)
qed

lemma collected_nth:
  "length ms = length es \<Longrightarrow> i < length ms \<Longrightarrow>
   collected et es ms ! i = (case fromstring et (ms ! i) of Some x \<Rightarrow> x | None \<Rightarrow> es ! i)"
  by (simp add: collected_def)

lemma length_collected: "length ms = length es \<Longrightarrow> length (collected et es ms) = length es"
  by (simp add: collected_def)

lemma collected_list_all2:
  assumes "list_all2 (\<lambda>s m. f s = Inr m) (map g es) ms"
  shows "list_all2 (\<lambda>e out. \<exists>m. f (g e) = Inr m
                         \<and> out = (case fromstring et m of Some x \<Rightarrow> x | None \<Rightarrow> e))
           es (collected et es ms)"
proof -
  from assms have len: "length ms = length es"
    by (auto dest: list_all2_lengthD)
  have "\<exists>m. f (g (es ! i)) = Inr m
          \<and> collected et es ms ! i = (case fromstring et m of Some x \<Rightarrow> x | None \<Rightarrow> es ! i)"
    if "i < length es" for i
  proof -
    from assms that have "f (g (es ! i)) = Inr (ms ! i)"
      by (auto simp: list_all2_conv_all_nth)
    moreover have "collected et es ms ! i
                     = (case fromstring et (ms ! i) of Some x \<Rightarrow> x | None \<Rightarrow> es ! i)"
      using len that by (simp add: collected_nth)
    ultimately show ?thesis by blast
  qed
  then show ?thesis
    using len by (simp add: list_all2_conv_all_nth length_collected)
qed

lemma run_aborted:
  "pool_imap (process_entry et c) (map (tostring et) (findall_desc (ustr ''entry'') root)) = Inl e
   \<Longrightarrow> update_jmdict_with_vietnamese_parallel et c root
         = \<lparr> written = None, warnings = [], raised = Some e \<rparr>"
  by (simp add: update_jmdict_with_vietnamese_parallel_def Let_def)

lemma pe_hi: "process_element mixed_store hi_entry = Inr hi_processed"
  by (simp add: mixed_store_def hi_entry_def hi_processed_def eval_defs process_mean_def
      py_strip_def py_isspace_def is_vietnamese_def sql_lower_def)

lemma pe_nihongo: "process_element mixed_store nihongo_entry = Inr nihongo_processed"
  by (simp add: mixed_store_def nihongo_entry_def nihongo_processed_def eval_defs process_mean_def
      py_strip_def py_isspace_def is_vietnamese_def sql_lower_def nihongo_def tieng_nhat_def)

lemma strict_tostring: "tostring strict_et e = e"
  by (simp add: strict_et_def)

lemma strict_parse_examples:
  "fromstring strict_et hi_entry = Some hi_entry"
  "fromstring strict_et nihongo_entry = Some nihongo_entry"
  "fromstring strict_et nihongo_processed = Some nihongo_processed"
  "fromstring strict_et hi_processed = None"
  "fromstring strict_et (node ''entry'' [node ''k_ele'' [leaf ''keb'' None]])
     = Some (node ''entry'' [node ''k_ele'' [leaf ''keb'' None]])"
  by (simp_all add: strict_et_def hi_entry_def nihongo_entry_def nihongo_processed_def
      hi_processed_def node_def leaf_def text_ok_def xml_char_ok_def ustr_def nihongo_def
      tieng_nhat_def)

lemma mixed_corpus_entries:
  "children mixed_corpus = [hi_entry, nihongo_entry]"
  "findall_desc (ustr ''entry'') mixed_corpus = children mixed_corpus"
  by (simp_all add: mixed_corpus_def findall_desc_def hi_entry_def nihongo_entry_def node_def
      leaf_def ustr_def)

lemma empty_keb_corpus_entries:
  "findall_desc (ustr ''entry'') empty_keb_corpus
     = [nihongo_entry, node ''entry'' [node ''k_ele'' [leaf ''keb'' None]]]"
  by (simp add: empty_keb_corpus_def findall_desc_def nihongo_entry_def node_def leaf_def
      ustr_def)

lemma mixed_pool:
  "pool_imap (process_entry strict_et mixed_store) (map (tostring strict_et) (children mixed_corpus))
     = Inr [hi_processed, nihongo_processed]"
  by (simp add: mixed_corpus_entries strict_tostring process_entry_def strict_parse_examples
      pe_hi pe_nihongo)

lemma mixed_collected:
  "collected strict_et (children mixed_corpus) [hi_processed, nihongo_processed]
     = [hi_entry, nihongo_processed]"
  by (simp add: collected_def mixed_corpus_entries strict_parse_examples)

lemma mixed_run:
  "update_jmdict_with_vietnamese_parallel strict_et mixed_store mixed_corpus
     = \<lparr> written = Some (node ''JMdict'' [hi_entry, nihongo_processed]),
         warnings = [0], raised = None \<rparr>"
  using run_spec [OF mixed_corpus_entries(2) mixed_pool]
  by (simp add: mixed_collected strict_parse_examples)
    (simp add: mixed_corpus_def node_def set_children_def)

lemma lone_empty_keb_corpus_entries:
  "findall_desc (ustr ''entry'') lone_empty_keb_corpus
     = [node ''entry'' [node ''k_ele'' [leaf ''keb'' None]]]"
  by (simp add: lone_empty_keb_corpus_def findall_desc_def node_def leaf_def ustr_def)

lemma header_corpus_entries:
  "children header_corpus = [leaf ''header'' None, nihongo_entry]"
  "findall_desc (ustr ''entry'') header_corpus = [nihongo_entry]"
  by (simp_all add: header_corpus_def findall_desc_def nihongo_entry_def node_def leaf_def
      ustr_def)

lemma lone_empty_keb_pool:
  "pool_imap (process_entry strict_et mixed_store)
     (map (tostring strict_et) (findall_desc (ustr ''entry'') lone_empty_keb_corpus))
     = Inl TypeError"
proof -
  have k: "leaf ''keb'' None
             \<in> set (findall_path2 (ustr ''k_ele'') (ustr ''keb'')
                      (node ''entry'' [node ''k_ele'' [leaf ''keb'' None]]))"
    by (simp add: findall_path2_def findall_child_def node_def leaf_def)
  have "collect_kanji mixed_store
          (findall_path2 (ustr ''k_ele'') (ustr ''keb'')
             (node ''entry'' [node ''k_ele'' [leaf ''keb'' None]])) ({}, []) = Inl TypeError"
    using k by (rule collect_kanji_None_text) (simp add: leaf_def)
  then have "process_element mixed_store (node ''entry'' [node ''k_ele'' [leaf ''keb'' None]])
               = Inl TypeError"
    by (simp add: process_element_def)
  then show ?thesis
    by (simp add: lone_empty_keb_corpus_entries strict_tostring process_entry_def
        strict_parse_examples)
qed

lemma header_run:
  "update_jmdict_with_vietnamese_parallel strict_et mixed_store header_corpus
     = \<lparr> written = Some (node ''JMdict'' [nihongo_processed, nihongo_entry]),
         warnings = [], raised = None \<rparr>"
proof -
  have p: "pool_imap (process_entry strict_et mixed_store) [nihongo_entry]
             = Inr [nihongo_processed]"
    by (simp add: process_entry_def strict_parse_examples pe_nihongo strict_tostring)
  have l: "update_loop strict_et [nihongo_entry] 0 [nihongo_processed]
             ([leaf ''header'' None, nihongo_entry], [])
           = Inr ([nihongo_processed, nihongo_entry], [])"
    by (simp add: strict_parse_examples)
  have s: "set_children header_corpus [nihongo_processed, nihongo_entry]
             = node ''JMdict'' [nihongo_processed, nihongo_entry]"
    by (simp add: header_corpus_def node_def set_children_def)
  show ?thesis
    by (simp add: update_jmdict_with_vietnamese_parallel_def Let_def header_corpus_entries
        strict_tostring p l s del: update_loop.simps pool_imap.simps)
qed

subsection \<open>Claims\<close>

text \<open>
  C9. An entry that holds a headword element (\<open>k_ele/keb\<close>) without text makes
  \<open>process_entry\<close> raise: the character collection iterates over \<open>None\<close>, which is a
  \<open>TypeError\<close> that nothing in the worker catches, so no result is returned for the entry.
\<close>

theorem process_entry_empty_keb_raises:
  assumes "fromstring et entry_str = Some entry"
    and "k \<in> set (findall_path2 (ustr ''k_ele'') (ustr ''keb'') entry)"
    and "etext k = None"
  shows "process_entry et c entry_str = Inl TypeError"
proof -
  have "collect_kanji c (findall_path2 (ustr ''k_ele'') (ustr ''keb'') entry) ({}, [])
          = Inl TypeError"
    using assms(2,3) by (rule collect_kanji_None_text)
  then have "process_element c entry = Inl TypeError"
    by (simp add: process_element_def)
  with assms(1) show ?thesis by (simp add: process_entry_def)
qed

theorem process_entry_empty_keb_raises_witness:
  "fromstring strict_et (node ''entry'' [node ''k_ele'' [leaf ''keb'' None]])
     = Some (node ''entry'' [node ''k_ele'' [leaf ''keb'' None]])
   \<and> leaf ''keb'' None
       \<in> set (findall_path2 (ustr ''k_ele'') (ustr ''keb'')
                (node ''entry'' [node ''k_ele'' [leaf ''keb'' None]]))
   \<and> etext (leaf ''keb'' None) = None
   \<and> process_entry strict_et \<lparr> words_table = Some [], kanji_table = Some [] \<rparr>
       (node ''entry'' [node ''k_ele'' [leaf ''keb'' None]]) = Inl TypeError"
proof -
  have a: "fromstring strict_et (node ''entry'' [node ''k_ele'' [leaf ''keb'' None]])
             = Some (node ''entry'' [node ''k_ele'' [leaf ''keb'' None]])"
    by (simp add: strict_et_def node_def leaf_def text_ok_def)
  have b: "leaf ''keb'' None
             \<in> set (findall_path2 (ustr ''k_ele'') (ustr ''keb'')
                      (node ''entry'' [node ''k_ele'' [leaf ''keb'' None]]))"
    by (simp add: findall_path2_def findall_child_def node_def leaf_def)
  have c: "etext (leaf ''keb'' None) = None"
    by (simp add: leaf_def)
  from a b c process_entry_empty_keb_raises [OF a b c] show ?thesis by blast
qed



text \<open>
  C7. Splicing a list of synthesized blocks into an entry: an empty list leaves the entry
  as it is; when the entry has a \<open>sense\<close> child, the blocks are placed, in their order,
  immediately before the first one; when it has none, they follow the last child. In
  each case the entry's own fields and all its other children are kept, in their order.
  The synthesized list itself is the meaning-sense block, then the character-sense block.
\<close>

theorem insert_senses_splice:
  "insert_senses entry [] = Inr entry
   \<and> (blocks \<noteq> [] \<and> children entry = pre @ s # post \<and> tag s = ustr ''sense''
        \<and> list_all (\<lambda>c. tag c \<noteq> ustr ''sense'') pre
      \<longrightarrow> insert_senses entry blocks = Inr (set_children entry (pre @ blocks @ s # post)))
   \<and> (blocks \<noteq> [] \<and> list_all (\<lambda>c. tag c \<noteq> ustr ''sense'') (children entry)
      \<longrightarrow> insert_senses entry blocks = Inr (set_children entry (children entry @ blocks)))
   \<and> (blocks \<noteq> []
      \<longrightarrow> insert_senses entry blocks
            = Inr (set_children entry
                     (takeWhile (\<lambda>c. tag c \<noteq> ustr ''sense'') (children entry) @ blocks
                      @ dropWhile (\<lambda>c. tag c \<noteq> ustr ''sense'') (children entry))))
   \<and> to_xml_sense_elements sd =
       (if StarDict.mean sd \<noteq> [] then [mean_sense_of sd] else [])
       @ (if StarDict.hanzi sd \<noteq> [] then [hanzi_sense_of sd] else [])"
  using insert_senses_before_first [of blocks entry pre s post]
    insert_senses_append [of blocks entry] to_xml_sense_elements_order [of sd]
    insert_senses_total [of blocks entry]
  by (simp add: insert_senses_def)

theorem insert_senses_splice_witness:
  "insert_senses
     (node ''entry'' [leaf ''ent_seq'' None, node ''sense'' [], leaf ''x'' None, node ''sense'' []])
     [node ''sense'' [leaf ''a'' None], node ''sense'' [leaf ''b'' None]]
   = Inr (node ''entry'' [leaf ''ent_seq'' None, node ''sense'' [leaf ''a'' None],
            node ''sense'' [leaf ''b'' None], node ''sense'' [], leaf ''x'' None,
            node ''sense'' []])
   \<and> insert_senses (node ''entry'' [leaf ''ent_seq'' None, leaf ''x'' None])
       [node ''sense'' [leaf ''a'' None], node ''sense'' [leaf ''b'' None]]
     = Inr (node ''entry'' [leaf ''ent_seq'' None, leaf ''x'' None,
              node ''sense'' [leaf ''a'' None], node ''sense'' [leaf ''b'' None]])"
proof -
  have ne: "ustr ''ent_seq'' \<noteq> ustr ''sense''" "ustr ''x'' \<noteq> ustr ''sense''"
    by (simp_all add: ustr_def)
  have a: "insert_senses
     (node ''entry'' [leaf ''ent_seq'' None, node ''sense'' [], leaf ''x'' None, node ''sense'' []])
     [node ''sense'' [leaf ''a'' None], node ''sense'' [leaf ''b'' None]]
   = Inr (set_children
       (node ''entry'' [leaf ''ent_seq'' None, node ''sense'' [], leaf ''x'' None,
          node ''sense'' []])
       ([leaf ''ent_seq'' None]
        @ [node ''sense'' [leaf ''a'' None], node ''sense'' [leaf ''b'' None]]
        @ node ''sense'' [] # [leaf ''x'' None, node ''sense'' []]))"
    using insert_senses_splice
      [of "node ''entry'' [leaf ''ent_seq'' None, node ''sense'' [], leaf ''x'' None,
             node ''sense'' []]"
          "[node ''sense'' [leaf ''a'' None], node ''sense'' [leaf ''b'' None]]"
          "[leaf ''ent_seq'' None]" "node ''sense'' []" "[leaf ''x'' None, node ''sense'' []]"]
      ne
    by (simp add: node_def leaf_def)
  have b: "insert_senses (node ''entry'' [leaf ''ent_seq'' None, leaf ''x'' None])
       [node ''sense'' [leaf ''a'' None], node ''sense'' [leaf ''b'' None]]
     = Inr (set_children (node ''entry'' [leaf ''ent_seq'' None, leaf ''x'' None])
         (children (node ''entry'' [leaf ''ent_seq'' None, leaf ''x'' None])
          @ [node ''sense'' [leaf ''a'' None], node ''sense'' [leaf ''b'' None]]))"
    using insert_senses_splice
      [of "node ''entry'' [leaf ''ent_seq'' None, leaf ''x'' None]"
          "[node ''sense'' [leaf ''a'' None], node ''sense'' [leaf ''b'' None]]"]
      ne
    by (simp add: node_def leaf_def)
  from a b show ?thesis by (simp add: node_def leaf_def set_children_def)
qed


text \<open>
  C3. For a matched translation record, the text of the meaning-sense gloss is the join
  with \<open>; \<close> of the trimmed clauses (split at \<open>;\<close>) that hold a character in
  U+00C0..U+1EF9, or the whole meaning text when no clause does; the meaning-sense block
  is built exactly when that text is not empty, which is when the record's meaning text
  is not empty (a NULL meaning counts as empty).
\<close>

theorem meaning_gloss_text:
  assumes "m0 = (case col_mean r of None \<Rightarrow> [] | Some m \<Rightarrow> m)"
    and "sd = make_stardict kanjis (Some (word_of_row r))"
  shows "StarDict.mean sd = spec_meaning_text m0
         \<and> (spec_meaning_text m0 = [] \<longleftrightarrow> m0 = [])
         \<and> to_xml_sense_elements sd =
             (if spec_meaning_text m0 \<noteq> [] then [mean_sense_of sd] else [])
             @ (if StarDict.hanzi sd \<noteq> [] then [hanzi_sense_of sd] else [])
         \<and> gloss_text (mean_sense_of sd) = Some (spec_meaning_text m0)"
proof -
  have m: "StarDict.mean sd = spec_meaning_text m0"
    using assms by (simp add: make_stardict_def Word_mean_of_row)
  show ?thesis
    using m spec_meaning_text_Nil_iff [of m0] to_xml_sense_elements_order [of sd]
      gloss_text_mean_sense [of sd]
    by simp
qed

theorem meaning_gloss_text_witness:
  "spec_meaning_text (tieng_nhat @ ustr ''; Japanese language'') = tieng_nhat
   \<and> to_xml_sense_elements
       (make_stardict []
          (Some (word_of_row (wrow nihongo None (tieng_nhat @ ustr ''; Japanese language'') None))))
     = [Element (ustr ''sense'') [] None None
          [Element (ustr ''gloss'') [(ustr ''xml:lang'', ustr ''vi'')] (Some tieng_nhat) None []]]"
proof -
  have sp: "split_on 59 (tieng_nhat @ ustr ''; Japanese language'')
              = [tieng_nhat, ustr '' Japanese language'']"
    by (simp add: tieng_nhat_def ustr_def)
  have t: "spec_meaning_text (tieng_nhat @ ustr ''; Japanese language'') = tieng_nhat"
    unfolding spec_meaning_text_def vietnamese_clauses_def sp
    by (simp add: tieng_nhat_def ustr_def py_strip_def py_isspace_def is_vietnamese_def)
  have ne: "tieng_nhat \<noteq> []"
    by (simp add: tieng_nhat_def)
  have m0: "tieng_nhat @ ustr ''; Japanese language''
              = (case col_mean (wrow nihongo None (tieng_nhat @ ustr ''; Japanese language'') None)
                 of None \<Rightarrow> [] | Some m \<Rightarrow> m)"
    by (simp add: wrow_def)
  have h: "StarDict.hanzi
             (make_stardict []
                (Some (word_of_row
                   (wrow nihongo None (tieng_nhat @ ustr ''; Japanese language'') None)))) = []"
    by (simp add: make_stardict_def truthy_strs_def)
  have a: "mean_anki
             (make_stardict []
                (Some (word_of_row
                   (wrow nihongo None (tieng_nhat @ ustr ''; Japanese language'') None)))) = None"
    by (simp add: make_stardict_def word_of_row_def Word_init_def wrow_def)
  from meaning_gloss_text [OF m0 refl, of "[]"] t ne h a show ?thesis
    by (simp add: mean_sense_of_def truthy_def append_child_def new_Element_def)
qed

text \<open>
  C5, as stated: an entry for which no headword or reading form matches comes out equal to
  the entry that went in. It fails: the character collection does not depend on the word
  match, so an entry without a match whose headword holds a character that the character
  table knows with an alternate rendering still receives a character-sense block.
\<close>

theorem no_match_output_unchanged_counterexample:
  "find_relevant_word hanzi_store
     (findall_path2 (ustr ''k_ele'') (ustr ''keb'') hi_entry)
     (findall_path2 (ustr ''r_ele'') (ustr ''reb'') hi_entry) = None
   \<and> process_element hanzi_store hi_entry =
       Inr (node ''entry''
              [node ''k_ele'' [leaf ''keb'' (Some [26085])],
               node ''r_ele'' [leaf ''reb'' (Some [12402])],
               node ''sense'' [leaf ''gloss'' (Some (ustr ''NHAT'')),
                               leaf ''misc'' (Some ([26085] @ ustr '' : day-note''))],
               node ''sense'' [leaf ''gloss'' (Some (ustr ''day''))]])
   \<and> process_element hanzi_store hi_entry \<noteq> Inr hi_entry"
  by (simp add: hanzi_store_def hi_entry_def eval_defs)

text \<open>
  C5, amended: for an entry without a match whose character collection does not raise, no
  meaning-sense block is added: the only block that can be added is the character-sense
  block. The output equals the input when, besides, none of the collected character
  records has an alternate-script rendering.
\<close>

theorem no_match_no_meaning_sense:
  assumes "find_relevant_word c (findall_path2 (ustr ''k_ele'') (ustr ''keb'') entry)
             (findall_path2 (ustr ''r_ele'') (ustr ''reb'') entry) = None"
    and "collect_kanji c (findall_path2 (ustr ''k_ele'') (ustr ''keb'') entry) ({}, [])
           = Inr (seen_kanji, kanjis)"
  shows "process_element c entry =
           insert_senses entry
             (if StarDict.hanzi (make_stardict kanjis None) \<noteq> []
              then [hanzi_sense_of (make_stardict kanjis None)] else [])
         \<and> (list_all (\<lambda>k. \<not> truthy (Kanji.hanzi k)) kanjis
              \<longrightarrow> process_element c entry = Inr entry)"
proof -
  have m: "StarDict.mean (make_stardict kanjis None) = []"
    by (simp add: make_stardict_def)
  have pe: "process_element c entry =
              insert_senses entry (to_xml_sense_elements (make_stardict kanjis None))"
    using assms by (simp add: process_element_def)
  have a: "process_element c entry =
           insert_senses entry
             (if StarDict.hanzi (make_stardict kanjis None) \<noteq> []
              then [hanzi_sense_of (make_stardict kanjis None)] else [])"
    using pe m by (simp add: to_xml_sense_elements_order)
  have b: "process_element c entry = Inr entry"
    if "list_all (\<lambda>k. \<not> truthy (Kanji.hanzi k)) kanjis"
  proof -
    from that have "truthy_strs (map Kanji.hanzi kanjis) = []"
      by (intro truthy_strs_all_falsy) (auto simp: list_all_iff)
    then have "StarDict.hanzi (make_stardict kanjis None) = []"
      by (simp add: make_stardict_def)
    with a show ?thesis by (simp add: insert_senses_def)
  qed
  from a b show ?thesis by blast
qed

theorem no_match_no_meaning_sense_witness:
  "find_relevant_word plain_store
     (findall_path2 (ustr ''k_ele'') (ustr ''keb'') hi_entry)
     (findall_path2 (ustr ''r_ele'') (ustr ''reb'') hi_entry) = None
   \<and> collect_kanji plain_store (findall_path2 (ustr ''k_ele'') (ustr ''keb'') hi_entry) ({}, [])
       = Inr ({Some [26085]}, [kanji_of_row (krow 26085 None (Some (ustr ''day-note'')))])
   \<and> process_element plain_store hi_entry = Inr hi_entry"
proof -
  have f: "find_relevant_word plain_store
             (findall_path2 (ustr ''k_ele'') (ustr ''keb'') hi_entry)
             (findall_path2 (ustr ''r_ele'') (ustr ''reb'') hi_entry) = None"
    by (simp add: plain_store_def hi_entry_def eval_defs)
  have c: "collect_kanji plain_store
             (findall_path2 (ustr ''k_ele'') (ustr ''keb'') hi_entry) ({}, [])
           = Inr ({Some [26085]}, [kanji_of_row (krow 26085 None (Some (ustr ''day-note'')))])"
    by (simp add: plain_store_def hi_entry_def eval_defs)
  have l: "list_all (\<lambda>k. \<not> truthy (Kanji.hanzi k))
             [kanji_of_row (krow 26085 None (Some (ustr ''day-note'')))]"
    by (simp add: eval_defs)
  from no_match_no_meaning_sense [OF f c] l f c show ?thesis by blast
qed

text \<open>
  C6. When every headword element has text, the character collection returns, for the
  ideographic characters (U+4E00..U+9FFF) of the headword forms taken once each in
  first-seen order, the records that the character table has for them: the records have
  pairwise different characters however often a character occurs in one form or across
  forms, and so each contributes at most once to the character-variant string, which is
  built from this list.
\<close>

theorem collect_kanji_first_seen:
  assumes "map etext kebs = map Some forms"
  shows "collect_kanji c kebs ({}, [])
           = Inr (Kanji.kanji ` set (spec_collect c forms), spec_collect c forms)
         \<and> distinct (map Kanji.kanji (spec_collect c forms))
         \<and> map Kanji.kanji (spec_collect c forms)
             = map (\<lambda>ch. Some [ch])
                 (filter (\<lambda>ch. get_kanji c [ch] \<noteq> None)
                    (first_seen (filter is_kanji_char (concat forms))))
         \<and> StarDict.hanzi (make_stardict (spec_collect c forms) w)
             = py_join (ustr '' | '') (truthy_strs (map Kanji.hanzi (spec_collect c forms)))"
proof -
  let ?g = "\<lambda>ch. get_kanji c [ch]"
  let ?chars = "filter is_kanji_char (concat forms)"
  have key: "\<And>x k. ?g x = Some k \<Longrightarrow> Kanji.kanji k = Some [x]"
    by (rule get_kanji_key)
  have c: "collect_kanji c kebs ({}, []) = Inr (add_unseen (List.map_filter ?g ?chars) ({}, []))"
    using collect_kanji_texts [OF assms] by (simp add: concat_kanji_loop)
  have s: "snd (add_unseen (List.map_filter ?g ?chars) ({}, [])) = spec_collect c forms"
    using add_unseen_first_seen [of ?g ?chars "{}", OF key] by (simp add: spec_collect_def)
  have "set (List.map_filter ?g ?chars) = set (List.map_filter ?g (first_seen ?chars))"
    by (simp add: List.map_filter_def set_first_seen)
  then have f: "fst (add_unseen (List.map_filter ?g ?chars) ({}, []))
                  = Kanji.kanji ` set (spec_collect c forms)"
    by (simp add: add_unseen_fst spec_collect_def)
  have d: "distinct (map Kanji.kanji (spec_collect c forms))"
    using distinct_keys_map_filter [of ?g "first_seen ?chars", OF key distinct_first_seen]
    by (simp add: spec_collect_def)
  have k: "map Kanji.kanji (spec_collect c forms)
             = map (\<lambda>ch. Some [ch]) (filter (\<lambda>ch. ?g ch \<noteq> None) (first_seen ?chars))"
    unfolding spec_collect_def by (rule keys_of_map_filter [of ?g, OF key])
  have h: "StarDict.hanzi (make_stardict (spec_collect c forms) w)
             = py_join (ustr '' | '') (truthy_strs (map Kanji.hanzi (spec_collect c forms)))"
    by (simp add: make_stardict_def)
  from c s f have "collect_kanji c kebs ({}, [])
           = Inr (Kanji.kanji ` set (spec_collect c forms), spec_collect c forms)"
    by (metis prod.collapse)
  with d k h show ?thesis by blast
qed

theorem collect_kanji_first_seen_witness:
  "map etext repeated_kebs = map Some [[26085, 26085, 26412], [26412, 12354, 26085]]
   \<and> collect_kanji two_kanji_store repeated_kebs ({}, [])
       = Inr ({Some [26085], Some [26412]},
              [kanji_of_row (krow 26085 (Some (ustr ''NHAT'')) (Some (ustr ''day-note''))),
               kanji_of_row (krow 26412 (Some (ustr ''BAN'')) None)])
   \<and> StarDict.hanzi
       (make_stardict
          [kanji_of_row (krow 26085 (Some (ustr ''NHAT'')) (Some (ustr ''day-note''))),
           kanji_of_row (krow 26412 (Some (ustr ''BAN'')) None)] None)
     = ustr ''NHAT | BAN''"
proof -
  have t: "map etext repeated_kebs = map Some [[26085, 26085, 26412], [26412, 12354, 26085]]"
    by (simp add: repeated_kebs_def leaf_def)
  have s: "spec_collect two_kanji_store [[26085, 26085, 26412], [26412, 12354, 26085]]
             = [kanji_of_row (krow 26085 (Some (ustr ''NHAT'')) (Some (ustr ''day-note''))),
                kanji_of_row (krow 26412 (Some (ustr ''BAN'')) None)]"
    by (simp add: spec_collect_def two_kanji_store_def is_kanji_char_def get_kanji_def krow_def)
  have k: "Kanji.kanji `
             set [kanji_of_row (krow 26085 (Some (ustr ''NHAT'')) (Some (ustr ''day-note''))),
                  kanji_of_row (krow 26412 (Some (ustr ''BAN'')) None)]
           = {Some [26085], Some [26412]}"
    by (simp add: kanji_of_row_def krow_def)
  have j: "py_join (ustr '' | '')
             (truthy_strs (map Kanji.hanzi
                [kanji_of_row (krow 26085 (Some (ustr ''NHAT'')) (Some (ustr ''day-note''))),
                 kanji_of_row (krow 26412 (Some (ustr ''BAN'')) None)]))
           = ustr ''NHAT | BAN''"
    by (simp add: truthy_strs_def truthy_def py_str_def kanji_of_row_def krow_def ustr_def)
  from collect_kanji_first_seen [OF t, of two_kanji_store None] t
  show ?thesis unfolding s k j by blast
qed




text \<open>
  C1, as stated, for every input corpus: it fails. A corpus with an entry on which the
  worker raises has no output at all, since the run ends before anything is written. And
  a document whose root holds another element before its entry is written with two
  entries where it had one: the loop assigns the result for entry \<open>i\<close> to the root's
  child \<open>i\<close>, which there is not that entry, and the entry itself stays behind it.
\<close>

theorem output_for_every_corpus_counterexample:
  "update_jmdict_with_vietnamese_parallel strict_et mixed_store lone_empty_keb_corpus
     = \<lparr> written = None, warnings = [], raised = Some TypeError \<rparr>
   \<and> findall_desc (ustr ''entry'') header_corpus = [nihongo_entry]
   \<and> update_jmdict_with_vietnamese_parallel strict_et mixed_store header_corpus
       = \<lparr> written = Some (node ''JMdict'' [nihongo_processed, nihongo_entry]),
           warnings = [], raised = None \<rparr>"
  using run_aborted [OF lone_empty_keb_pool] header_corpus_entries(2) header_run
  by simp

text \<open>
  C1, amended. For a corpus whose entries are exactly the children of its root, a run that
  writes its output writes a root with the same tag and attributes and as many children
  as the input has entries, and the child at each index is what the entry at that index
  has become: the parsed result of \<open>process_entry\<close> on that entry, or the entry itself
  when the result does not parse. \<open>pool.imap\<close> hands the results back in the order of
  the tasks, so the order in which the workers finish plays no part.
\<close>

theorem output_index_preserving:
  assumes fmt: "findall_desc (ustr ''entry'') root = children root"
    and w: "written (update_jmdict_with_vietnamese_parallel et c root) = Some out"
  shows "tag out = tag root \<and> attrib out = attrib root
         \<and> length (children out) = length (children root)
         \<and> list_all2
             (\<lambda>e out_e. \<exists>m. process_entry et c (tostring et e) = Inr m
                \<and> out_e = (case fromstring et m of Some x \<Rightarrow> x | None \<Rightarrow> e))
             (children root) (children out)"
proof (cases "pool_imap (process_entry et c) (map (tostring et) (children root))")
  case (Inl e)
  with fmt have "written (update_jmdict_with_vietnamese_parallel et c root) = None"
    by (simp add: run_aborted)
  with w show ?thesis by simp
next
  case (Inr ms)
  from run_spec [OF fmt Inr] w
  have out: "out = set_children root (collected et (children root) ms)" by simp
  have la: "list_all2
             (\<lambda>e out_e. \<exists>m. process_entry et c (tostring et e) = Inr m
                \<and> out_e = (case fromstring et m of Some x \<Rightarrow> x | None \<Rightarrow> e))
             (children root) (collected et (children root) ms)"
    using pool_imap_list_all2 [OF Inr] by (rule collected_list_all2)
  from la have "length (collected et (children root) ms) = length (children root)"
    by (auto dest: list_all2_lengthD)
  with out la show ?thesis by (simp add: set_children_def)
qed

theorem output_index_preserving_witness:
  "findall_desc (ustr ''entry'') mixed_corpus = children mixed_corpus
   \<and> written (update_jmdict_with_vietnamese_parallel strict_et mixed_store mixed_corpus)
       = Some (node ''JMdict'' [hi_entry, nihongo_processed])
   \<and> list_all2
       (\<lambda>e out_e. \<exists>m. process_entry strict_et mixed_store (tostring strict_et e) = Inr m
          \<and> out_e = (case fromstring strict_et m of Some x \<Rightarrow> x | None \<Rightarrow> e))
       [hi_entry, nihongo_entry] [hi_entry, nihongo_processed]"
proof -
  have w: "written (update_jmdict_with_vietnamese_parallel strict_et mixed_store mixed_corpus)
             = Some (node ''JMdict'' [hi_entry, nihongo_processed])"
    by (simp add: mixed_run)
  have c: "children (node ''JMdict'' [hi_entry, nihongo_processed])
             = [hi_entry, nihongo_processed]"
    by (simp add: node_def)
  from output_index_preserving [OF mixed_corpus_entries(2) w] w mixed_corpus_entries
  show ?thesis unfolding c by simp
qed

text \<open>
  C4, as stated: an entry whose processing raises in the worker is replaced by its
  original and the run goes on. It fails: nothing catches the exception, \<open>pool.imap\<close>
  raises it again in the parent, and the run ends before anything is written, also for
  the entries that were processed without error.
\<close>

theorem worker_exception_aborts_counterexample:
  "update_jmdict_with_vietnamese_parallel strict_et mixed_store empty_keb_corpus
     = \<lparr> written = None, warnings = [], raised = Some TypeError \<rparr>"
proof -
  have k: "leaf ''keb'' None
             \<in> set (findall_path2 (ustr ''k_ele'') (ustr ''keb'')
                      (node ''entry'' [node ''k_ele'' [leaf ''keb'' None]]))"
    by (simp add: findall_path2_def findall_child_def node_def leaf_def)
  have "collect_kanji mixed_store
          (findall_path2 (ustr ''k_ele'') (ustr ''keb'')
             (node ''entry'' [node ''k_ele'' [leaf ''keb'' None]])) ({}, []) = Inl TypeError"
    using k by (rule collect_kanji_None_text) (simp add: leaf_def)
  then have "process_element mixed_store (node ''entry'' [node ''k_ele'' [leaf ''keb'' None]])
               = Inl TypeError"
    by (simp add: process_element_def)
  then have "pool_imap (process_entry strict_et mixed_store)
               (map (tostring strict_et) (findall_desc (ustr ''entry'') empty_keb_corpus))
             = Inl TypeError"
    by (simp add: empty_keb_corpus_entries strict_tostring process_entry_def
        strict_parse_examples pe_nihongo)
  then show ?thesis by (rule run_aborted)
qed

text \<open>
  C4, amended. For a corpus whose entries are exactly the children of its root: when no
  worker raises, the run writes its output: at every index whose
  returned form does not parse, the original entry is kept and the index is reported; at
  every other index the parsed result is stored. The run then ends without an exception
  (unless the corpus has no entry at all, where the closing average divides by zero
  after the output has been written).
\<close>

theorem unparsable_result_falls_back:
  assumes fmt: "findall_desc (ustr ''entry'') root = children root"
    and ok: "pool_imap (process_entry et c) (map (tostring et) (children root)) = Inr ms"
  shows "written (update_jmdict_with_vietnamese_parallel et c root)
           = Some (set_children root (collected et (children root) ms))
         \<and> raised (update_jmdict_with_vietnamese_parallel et c root)
             = (if children root = [] then Some ZeroDivisionError else None)
         \<and> set (warnings (update_jmdict_with_vietnamese_parallel et c root))
             = {i. i < length ms \<and> fromstring et (ms ! i) = None}
         \<and> (\<forall>i < length ms.
               collected et (children root) ms ! i
                 = (case fromstring et (ms ! i) of Some x \<Rightarrow> x | None \<Rightarrow> children root ! i))"
proof -
  from ok have len: "length ms = length (children root)"
    using pool_imap_length by fastforce
  have s: "set (failed_from et 0 ms) = {i. i < length ms \<and> fromstring et (ms ! i) = None}"
    by (simp add: set_failed_from)
  show ?thesis
    using run_spec [OF fmt ok] s len by (simp add: collected_nth)
qed

theorem unparsable_result_falls_back_witness:
  "findall_desc (ustr ''entry'') mixed_corpus = children mixed_corpus
   \<and> pool_imap (process_entry strict_et mixed_store)
       (map (tostring strict_et) (children mixed_corpus))
     = Inr [hi_processed, nihongo_processed]
   \<and> fromstring strict_et hi_processed = None
   \<and> written (update_jmdict_with_vietnamese_parallel strict_et mixed_store mixed_corpus)
       = Some (set_children mixed_corpus [hi_entry, nihongo_processed])
   \<and> raised (update_jmdict_with_vietnamese_parallel strict_et mixed_store mixed_corpus) = None"
proof -
  have ne: "children mixed_corpus \<noteq> []"
    by (simp add: mixed_corpus_entries)
  from unparsable_result_falls_back [OF mixed_corpus_entries(2) mixed_pool]
    mixed_corpus_entries(2) mixed_pool strict_parse_examples(4) ne
  show ?thesis by (simp add: mixed_collected)
qed

end
